theory Spec2Isabelle
  imports Complex_Main
begin

section \<open>The phase model of script.js\<close>

text \<open>
  A JavaScript Number is read as a real number and the arithmetic of the script is
  taken exactly; where a property depends on the rounding of binary64, the computation
  is stated again with every result rounded (see the rounded phase fraction below).
  A \<open>Date\<close> is its time value, a whole number of milliseconds since the Unix epoch
  (a valid date; the script only builds dates with \<open>new Date()\<close> and
  \<open>new Date(y, m, d)\<close>).
\<close>

datatype Date = Date (getTime: int)

definition TAU :: real where
  "TAU = pi * 2"

definition clamp :: "real \<Rightarrow> real \<Rightarrow> real \<Rightarrow> real" where
  "clamp v a b = min (max v a) b"

text \<open>\<open>const frac = x => x - Math.floor(x)\<close>\<close>

definition frac_num :: "real \<Rightarrow> real" where
  "frac_num x = x - of_int \<lfloor>x\<rfloor>"

definition toJulian :: "Date \<Rightarrow> real" where
  "toJulian date = real_of_int (getTime date) / 86400000 + 2440587.5"

record PhaseReading =
  phase :: real
  ageDays :: real
  illum :: real

definition synodic :: real where
  "synodic = 29.530588853"

text \<open>The cycle count \<open>k\<close> of \<open>moonPhase\<close>, named so that theorems can speak of it.\<close>

definition cycles :: "Date \<Rightarrow> real" where
  "cycles date = (toJulian date - 2451550.1) / synodic"

definition moonPhase :: "Date \<Rightarrow> PhaseReading" where
  "moonPhase date =
     (let jd = toJulian date;
          k = (jd - 2451550.1) / synodic;
          p = frac_num k;
          age = p * synodic;
          il = 0.5 * (1 - cos (TAU * p))
      in \<lparr> phase = p, ageDays = age, illum = il \<rparr>)"

definition phaseName :: "real \<Rightarrow> string" where
  "phaseName p =
     (if p < 0.03 \<or> p > 0.97 then ''New Moon''
      else if p < 0.22 then ''Waxing Crescent''
      else if p < 0.28 then ''First Quarter''
      else if p < 0.47 then ''Waxing Gibbous''
      else if p < 0.53 then ''Full Moon''
      else if p < 0.72 then ''Waning Gibbous''
      else if p < 0.78 then ''Last Quarter''
      else ''Waning Crescent'')"

text \<open>
  The table of section 4.1 of the specification, read top to bottom: a row is a
  condition and a name, and the first row whose condition holds gives the name.
\<close>

definition conditions_table :: "((real \<Rightarrow> bool) \<times> string) list" where
  "conditions_table =
     [(\<lambda>p. p < 0.03 \<or> p > 0.97, ''New Moon''),
      (\<lambda>p. p < 0.22, ''Waxing Crescent''),
      (\<lambda>p. p < 0.28, ''First Quarter''),
      (\<lambda>p. p < 0.47, ''Waxing Gibbous''),
      (\<lambda>p. p < 0.53, ''Full Moon''),
      (\<lambda>p. p < 0.72, ''Waning Gibbous''),
      (\<lambda>p. p < 0.78, ''Last Quarter'')]"

fun first_row :: "((real \<Rightarrow> bool) \<times> string) list \<Rightarrow> string \<Rightarrow> real \<Rightarrow> string" where
  "first_row [] other p = other"
| "first_row ((c, n) # rows) other p = (if c p then n else first_row rows other p)"

definition classifyPhase_table :: "real \<Rightarrow> string" where
  "classifyPhase_table p = first_row conditions_table ''Waning Crescent'' p"

definition phase_names :: "string list" where
  "phase_names =
     [''New Moon'', ''Waxing Crescent'', ''First Quarter'', ''Waxing Gibbous'',
      ''Full Moon'', ''Waning Gibbous'', ''Last Quarter'', ''Waning Crescent'']"


section \<open>The phase fraction in rounded arithmetic\<close>

text \<open>
  The script computes in binary64. \<open>rnd\<close> stands for its rounding of a real result to
  a Number: every function that is off by no more than the relative error \<open>2^-53\<close>
  (plus an absolute error far below anything met here, for results too small to be
  normal) on the magnitudes that occur is admitted, and round-to-nearest of binary64
  is one of them. The literals \<open>2451550.1\<close> and \<open>29.530588853\<close> are rounded when they are
  read; \<open>86400000\<close>, \<open>2440587.5\<close> and time values are Numbers as they stand, and
  \<open>Math.floor\<close> is exact.
\<close>

definition rounds :: "(real \<Rightarrow> real) \<Rightarrow> bool" where
  "rounds rnd =
     (\<forall>x. \<bar>x\<bar> \<le> 10 ^ 18 \<longrightarrow> \<bar>rnd x - x\<bar> \<le> \<bar>x\<bar> / 2 ^ 53 + 1 / 10 ^ 30)"

definition toJulian_rounded :: "(real \<Rightarrow> real) \<Rightarrow> Date \<Rightarrow> real" where
  "toJulian_rounded rnd date = rnd (rnd (real_of_int (getTime date) / 86400000) + 2440587.5)"

text \<open>The cycle count \<open>k\<close> and the field \<open>phase\<close> of \<open>moonPhase\<close>, rounded.\<close>

definition cycles_rounded :: "(real \<Rightarrow> real) \<Rightarrow> Date \<Rightarrow> real" where
  "cycles_rounded rnd date =
     rnd (rnd (toJulian_rounded rnd date - rnd 2451550.1) / rnd 29.530588853)"

definition phase_rounded :: "(real \<Rightarrow> real) \<Rightarrow> Date \<Rightarrow> real" where
  "phase_rounded rnd date =
     (let jd = toJulian_rounded rnd date;
          synodic = rnd 29.530588853;
          k = rnd (rnd (jd - rnd 2451550.1) / synodic);
          p = rnd (k - of_int \<lfloor>k\<rfloor>)
      in p)"

text \<open>
  The date a given number of days after a date, built the way a script builds it:
  \<open>new Date(t.getTime() + days * 86400000)\<close>. The product and the sum are rounded, and
  the Date constructor drops what is left of a fraction of a millisecond, toward zero
  (ECMAScript TimeClip; a sum beyond the range of Date gives no date, and the
  properties below are stated for sums within the range).
\<close>

definition ToIntegerOrInfinity :: "real \<Rightarrow> int" where
  "ToIntegerOrInfinity x = (if 0 \<le> x then \<lfloor>x\<rfloor> else \<lceil>x\<rceil>)"

definition plusDays :: "(real \<Rightarrow> real) \<Rightarrow> Date \<Rightarrow> real \<Rightarrow> Date" where
  "plusDays rnd t days =
     Date (ToIntegerOrInfinity (rnd (real_of_int (getTime t) + rnd (rnd days * 86400000))))"


section \<open>The host: what the script takes from the browser\<close>

text \<open>
  The built-in functions whose results the script only passes on are parameters of the
  model: the conversion of a Number to text (in a template literal, by \<open>toFixed\<close> and
  by \<open>toString(36)\<close>), \<open>Math.random\<close> with its hidden state, the locale's date
  formats, and the offset of the local time zone (\<open>LocalTZA\<close> of ECMAScript: its first
  argument is a time value, UTC when the flag is set and local time otherwise).
\<close>

record 's host =
  Number_toString :: "real \<Rightarrow> string"
  Number_toFixed :: "real \<Rightarrow> nat \<Rightarrow> string"
  Number_toString36 :: "real \<Rightarrow> string"
  Math_random :: "'s \<Rightarrow> real \<times> 's"
  Date_toLocaleString :: "Date \<Rightarrow> string"
  Date_toLocaleDateString :: "Date \<Rightarrow> (string \<times> string) list \<Rightarrow> string"
  LocalTZA :: "int \<Rightarrow> bool \<Rightarrow> int"

subsection \<open>Dates, after the ECMAScript definitions\<close>

definition msPerDay :: int where
  "msPerDay = 86400000"

definition Day :: "int \<Rightarrow> int" where
  "Day t = t div msPerDay"


definition DaysInYear :: "int \<Rightarrow> int" where
  "DaysInYear y =
     (if y mod 4 \<noteq> 0 then 365
      else if y mod 100 \<noteq> 0 then 366
      else if y mod 400 \<noteq> 0 then 365
      else 366)"

definition DayFromYear :: "int \<Rightarrow> int" where
  "DayFromYear y =
     365 * (y - 1970) + (y - 1969) div 4 - (y - 1901) div 100 + (y - 1601) div 400"

text \<open>
  \<open>YearFromTime\<close> is the largest year whose first day is not after the day of the time
  value. It is computed from an estimate that is off by one year at most.
\<close>

definition YearFromTime :: "int \<Rightarrow> int" where
  "YearFromTime t =
     (let d = Day t; y = 1970 + (400 * d) div 146097
      in if DayFromYear (y + 1) \<le> d then y + 1
         else if DayFromYear y \<le> d then y
         else y - 1)"

definition DayWithinYear :: "int \<Rightarrow> int" where
  "DayWithinYear t = Day t - DayFromYear (YearFromTime t)"

definition InLeapYear :: "int \<Rightarrow> int" where
  "InLeapYear t = (if DaysInYear (YearFromTime t) = 366 then 1 else 0)"

definition MonthFromTime :: "int \<Rightarrow> int" where
  "MonthFromTime t =
     (let d = DayWithinYear t; l = InLeapYear t
      in if d < 31 then 0
         else if d < 59 + l then 1
         else if d < 90 + l then 2
         else if d < 120 + l then 3
         else if d < 151 + l then 4
         else if d < 181 + l then 5
         else if d < 212 + l then 6
         else if d < 243 + l then 7
         else if d < 273 + l then 8
         else if d < 304 + l then 9
         else if d < 334 + l then 10
         else 11)"

definition DateFromTime :: "int \<Rightarrow> int" where
  "DateFromTime t =
     (let d = DayWithinYear t; l = InLeapYear t; m = MonthFromTime t
      in if m = 0 then d + 1
         else if m = 1 then d - 30
         else if m = 2 then d - 58 - l
         else if m = 3 then d - 89 - l
         else if m = 4 then d - 119 - l
         else if m = 5 then d - 150 - l
         else if m = 6 then d - 180 - l
         else if m = 7 then d - 211 - l
         else if m = 8 then d - 242 - l
         else if m = 9 then d - 272 - l
         else if m = 10 then d - 303 - l
         else d - 333 - l)"

text \<open>The day within its year on which month \<open>m\<close> (0 to 11) begins.\<close>

definition DaysBeforeMonth :: "int \<Rightarrow> int \<Rightarrow> int" where
  "DaysBeforeMonth m l =
     (if m = 0 then 0
      else if m = 1 then 31
      else if m = 2 then 59 + l
      else if m = 3 then 90 + l
      else if m = 4 then 120 + l
      else if m = 5 then 151 + l
      else if m = 6 then 181 + l
      else if m = 7 then 212 + l
      else if m = 8 then 243 + l
      else if m = 9 then 273 + l
      else if m = 10 then 304 + l
      else 334 + l)"

text \<open>
  \<open>MakeDay\<close>: the day number of the first of the month (months beyond 0 to 11 carry
  into the year), plus the day of the month less one; a day of the month beyond the
  month's length runs on into the next months.
\<close>

definition MakeDay :: "int \<Rightarrow> int \<Rightarrow> int \<Rightarrow> int" where
  "MakeDay year month date =
     (let ym = year + month div 12;
          mn = month mod 12;
          l = (if DaysInYear ym = 366 then 1 else 0)
      in DayFromYear ym + DaysBeforeMonth mn l + date - 1)"

definition MakeTime :: "int \<Rightarrow> int \<Rightarrow> int \<Rightarrow> int \<Rightarrow> int" where
  "MakeTime hour minute sec ms = hour * 3600000 + minute * 60000 + sec * 1000 + ms"

definition MakeDate :: "int \<Rightarrow> int \<Rightarrow> int" where
  "MakeDate day time = day * msPerDay + time"

definition LocalTime :: "'s host \<Rightarrow> int \<Rightarrow> int" where
  "LocalTime h t = t + LocalTZA h t True"

definition UTC :: "'s host \<Rightarrow> int \<Rightarrow> int" where
  "UTC h t = t - LocalTZA h t False"

definition getFullYear :: "'s host \<Rightarrow> Date \<Rightarrow> int" where
  "getFullYear h d = YearFromTime (LocalTime h (getTime d))"

definition getMonth :: "'s host \<Rightarrow> Date \<Rightarrow> int" where
  "getMonth h d = MonthFromTime (LocalTime h (getTime d))"

definition getDate :: "'s host \<Rightarrow> Date \<Rightarrow> int" where
  "getDate h d = DateFromTime (LocalTime h (getTime d))"


definition newDate :: "'s host \<Rightarrow> int \<Rightarrow> int \<Rightarrow> int \<Rightarrow> Date" where
  "newDate h year month date =
     (let yr = (if 0 \<le> year \<and> year \<le> 99 then 1900 + year else year);
          finalDate = MakeDate (MakeDay yr month date) (MakeTime 0 0 0 0)
      in Date (UTC h finalDate))"


subsection \<open>Time zones\<close>










section \<open>The presentation layer of script.js\<close>

text \<open>
  \<open>moonSVG\<close> draws one random Number and returns the markup together with the state of
  the random source after the draw. Its second parameter is optional in the script.
\<close>

definition moonSVG :: "'s host \<Rightarrow> real \<Rightarrow> real option \<Rightarrow> 's \<Rightarrow> string \<times> 's" where
  \<open>moonSVG h p size_arg st =
     (let size = (case size_arg of None \<Rightarrow> 160 | Some v \<Rightarrow> v);
          r = size / 2;
          x = 2 * p - 1;
          absx = \<bar>x\<bar>;
          dir = (if x \<ge> 0 then 1 else - 1);
          scaleX = 1 - absx;
          shift = dir * r * 0.65;
          (u, st') = Math_random h st;
          id = ''m'' @ drop 2 (Number_toString36 h u);
          n = Number_toString h
      in (concat [
        ''\<newline>  <svg viewBox="0 0 '',
        n size,
        '' '',
        n size,
        ''" width="'',
        n size,
        ''" height="'',
        n size,
        ''" class="moonSVG" aria-label="Moon icon">\<newline>    <defs>\<newline>      <radialGradient id="g-'',
        id,
        ''" cx="35%" cy="30%" r="75%">\<newline>        <stop offset="0%" stop-color="#f8fbff"/>\<newline>        <stop offset="60%" stop-color="#e6ebff"/>\<newline>        <stop offset="100%" stop-color="#c7d2ff"/>\<newline>      </radialGradient>\<newline>      <filter id="shadow-'',
        id,
        ''" x="-50%" y="-50%" width="200%" height="200%">\<newline>        <feDropShadow dx="0" dy="2" stdDeviation="4" flood-color="#000" flood-opacity="0.6"/>\<newline>      </filter>\<newline>      <clipPath id="clip-'',
        id,
        ''">\<newline>        <circle cx="'',
        n r,
        ''" cy="'',
        n r,
        ''" r="'',
        n r,
        ''" />\<newline>      </clipPath>\<newline>      <mask id="mask-'',
        id,
        ''">\<newline>        <rect width="100%" height="100%" fill="black"/>\<newline>        <g transform="translate('',
        n (r + shift),
        '', '',
        n r,
        '') scale('',
        n scaleX,
        '', 1)">\<newline>          <circle cx="0" cy="0" r="'',
        n r,
        ''" fill="white" />\<newline>        </g>\<newline>      </mask>\<newline>    </defs>\<newline>    <circle cx="'',
        n r,
        ''" cy="'',
        n r,
        ''" r="'',
        n r,
        ''" fill="#0a0f22" stroke="#1c2752" stroke-width="2" filter="url(#shadow-'',
        id,
        '')"/>\<newline>    <g clip-path="url(#clip-'',
        id,
        '')" mask="url(#mask-'',
        id,
        '')">\<newline>      <circle cx="'',
        n r,
        ''" cy="'',
        n r,
        ''" r="'',
        n r,
        ''" fill="url(#g-'',
        id,
        '')"/>\<newline>    </g>\<newline>    <circle cx="'',
        n r,
        ''" cy="'',
        n r,
        ''" r="'',
        n (r - 1.5),
        ''" fill="none" stroke="rgba(255,255,255,.06)" stroke-width="3"/>\<newline>  </svg>''], st'))\<close>

text \<open>
  The markup of the icon with the identifier cut out: the nine pieces of text between
  its eight occurrences. They are computed from the phase fraction and the size alone.
\<close>

definition moonSVG_pieces :: "'s host \<Rightarrow> real \<Rightarrow> real option \<Rightarrow> string list" where
  \<open>moonSVG_pieces h p size_arg =
     (let size = (case size_arg of None \<Rightarrow> 160 | Some v \<Rightarrow> v);
          r = size / 2;
          x = 2 * p - 1;
          absx = \<bar>x\<bar>;
          dir = (if x \<ge> 0 then 1 else - 1);
          scaleX = 1 - absx;
          shift = dir * r * 0.65;
          n = Number_toString h
      in [
        concat [''\<newline>  <svg viewBox="0 0 '', n size, '' '', n size, ''" width="'', n size, ''" height="'', n size, ''" class="moonSVG" aria-label="Moon icon">\<newline>    <defs>\<newline>      <radialGradient id="g-''],
        concat [''" cx="35%" cy="30%" r="75%">\<newline>        <stop offset="0%" stop-color="#f8fbff"/>\<newline>        <stop offset="60%" stop-color="#e6ebff"/>\<newline>        <stop offset="100%" stop-color="#c7d2ff"/>\<newline>      </radialGradient>\<newline>      <filter id="shadow-''],
        concat [''" x="-50%" y="-50%" width="200%" height="200%">\<newline>        <feDropShadow dx="0" dy="2" stdDeviation="4" flood-color="#000" flood-opacity="0.6"/>\<newline>      </filter>\<newline>      <clipPath id="clip-''],
        concat [''">\<newline>        <circle cx="'', n r, ''" cy="'', n r, ''" r="'', n r, ''" />\<newline>      </clipPath>\<newline>      <mask id="mask-''],
        concat [''">\<newline>        <rect width="100%" height="100%" fill="black"/>\<newline>        <g transform="translate('', n (r + shift), '', '', n r, '') scale('', n scaleX, '', 1)">\<newline>          <circle cx="0" cy="0" r="'', n r, ''" fill="white" />\<newline>        </g>\<newline>      </mask>\<newline>    </defs>\<newline>    <circle cx="'', n r, ''" cy="'', n r, ''" r="'', n r, ''" fill="#0a0f22" stroke="#1c2752" stroke-width="2" filter="url(#shadow-''],
        concat ['')"/>\<newline>    <g clip-path="url(#clip-''],
        concat ['')" mask="url(#mask-''],
        concat ['')">\<newline>      <circle cx="'', n r, ''" cy="'', n r, ''" r="'', n r, ''" fill="url(#g-''],
        concat ['')"/>\<newline>    </g>\<newline>    <circle cx="'', n r, ''" cy="'', n r, ''" r="'', n (r - 1.5), ''" fill="none" stroke="rgba(255,255,255,.06)" stroke-width="3"/>\<newline>  </svg>'']])\<close>

fun fill_in :: "string \<Rightarrow> string list \<Rightarrow> string" where
  "fill_in ident [] = []"
| "fill_in ident [c] = c"
| "fill_in ident (c # cs) = c @ ident @ fill_in ident cs"

text \<open>The identifier that \<open>moonSVG\<close> makes from a state of the random source.\<close>

definition icon_id :: "'s host \<Rightarrow> 's \<Rightarrow> string" where
  "icon_id h st = ''m'' @ drop 2 (Number_toString36 h (fst (Math_random h st)))"

definition fmtDate :: "'s host \<Rightarrow> Date \<Rightarrow> string" where
  "fmtDate h d = Date_toLocaleDateString h d
     [(''weekday'', ''short''), (''year'', ''numeric''), (''month'', ''short''), (''day'', ''numeric'')]"

definition fmtShort :: "'s host \<Rightarrow> Date \<Rightarrow> string" where
  "fmtShort h d = Date_toLocaleDateString h d
     [(''weekday'', ''short''), (''month'', ''short''), (''day'', ''numeric'')]"

definition percent :: "'s host \<Rightarrow> real \<Rightarrow> string" where
  "percent h n = Number_toFixed h (n * 100) 1 @ ''%''"

text \<open>
  The page: the text or markup of each element the script writes, the cards of the
  forecast grid, the inline \<open>display\<close> of the forecast panel, the text of the toggle
  button, and the state of \<open>Math.random\<close>.
\<close>

record card =
  className :: string
  innerHTML :: string

record 's page =
  now_text :: string
  todayMoon :: string
  todayLabel :: string
  todayDate :: string
  todayIllum :: string
  todayAge :: string
  grid7 :: "card list"
  sevenPanel_display :: string
  toggle7_text :: string
  rng :: 's

text \<open>\<open>renderToday\<close> and \<open>render7\<close> read the clock once: \<open>now\<close> is what it shows.\<close>

definition renderToday :: "'s host \<Rightarrow> Date \<Rightarrow> 's page \<Rightarrow> 's page" where
  "renderToday h now pg =
     (let m = moonPhase now;
          (svg, st') = moonSVG h (phase m) (Some 160) (rng pg)
      in pg \<lparr> now_text := Date_toLocaleString h now,
              todayMoon := svg,
              todayLabel := phaseName (phase m),
              todayDate := fmtDate h now,
              todayIllum := percent h (illum m),
              todayAge := Number_toFixed h (ageDays m) 1 @ '' days'',
              rng := st' \<rparr>)"

text \<open>The template literal of a forecast card, for the date \<open>d\<close> and its reading.\<close>

definition card_innerHTML :: "'s host \<Rightarrow> Date \<Rightarrow> real \<Rightarrow> real \<Rightarrow> string \<Rightarrow> string" where
  \<open>card_innerHTML h d p il svg =
     concat [
       ''\<newline>      '', svg,
       ''\<newline>      <div class="label">'', phaseName p,
       ''</div>\<newline>      <div class="date">'', fmtShort h d,
       ''</div>\<newline>      <div class="illum">'', percent h il,
       '' lit</div>\<newline>    '']\<close>

text \<open>The body of the loop of \<open>render7\<close> for the date \<open>d\<close>: one card is appended.\<close>

definition render7_card :: "'s host \<Rightarrow> Date \<Rightarrow> 's page \<Rightarrow> 's page" where
  "render7_card h d pg =
     (let m = moonPhase d;
          (svg, st') = moonSVG h (phase m) (Some 120) (rng pg);
          card = \<lparr> className = ''card'',
                   innerHTML = card_innerHTML h d (phase m) (illum m) svg \<rparr>
      in pg \<lparr> grid7 := grid7 pg @ [card], rng := st' \<rparr>)"

function render7_loop :: "'s host \<Rightarrow> Date \<Rightarrow> int \<Rightarrow> 's page \<Rightarrow> 's page" where
  "render7_loop h base i pg =
     (if i \<le> 7
      then let d = newDate h (getFullYear h base) (getMonth h base) (getDate h base + i)
           in render7_loop h base (i + 1) (render7_card h d pg)
      else pg)"
  by pat_completeness auto
termination
  by (relation "measure (\<lambda>(h, base, i, pg). nat (8 - i))") auto

declare render7_loop.simps [simp del]

definition render7 :: "'s host \<Rightarrow> Date \<Rightarrow> 's page \<Rightarrow> 's page" where
  "render7 h now pg =
     (let pg1 = pg \<lparr> grid7 := [] \<rparr>;
          base = now
      in render7_loop h base 1 pg1)"

definition hide_text :: string where
  "hide_text = [CHR 0xE2, CHR 0x96, CHR 0xBC] @ '' Hide Next 7 Days''"

definition show_text :: string where
  "show_text = [CHR 0xE2, CHR 0x96, CHR 0xB6] @ '' Next 7 Days''"

text \<open>The click handler of the toggle button.\<close>

definition toggle_click :: "'s host \<Rightarrow> Date \<Rightarrow> 's page \<Rightarrow> 's page" where
  "toggle_click h now pg =
     (let show = (sevenPanel_display pg = ''none'');
          pg1 = pg \<lparr> sevenPanel_display := (if show then ''block'' else ''none'') \<rparr>;
          pg2 = pg1 \<lparr> toggle7_text := (if show then hide_text else show_text) \<rparr>
      in if show then render7 h now pg2 else pg2)"

text \<open>The callback of \<open>setInterval\<close>, run every minute.\<close>

definition refresh :: "'s host \<Rightarrow> Date \<Rightarrow> 's page \<Rightarrow> 's page" where
  "refresh h now pg =
     (let pg1 = renderToday h now pg
      in if sevenPanel_display pg1 \<noteq> ''none'' then render7 h now pg1 else pg1)"

text \<open>
  The states of the page: the script renders today's reading once when it is loaded,
  on the page \<open>pg0\<close> that the markup gives; after that every click of the toggle and
  every tick of the timer is one step. Each step reads the clock.
\<close>

inductive reachable :: "'s host \<Rightarrow> 's page \<Rightarrow> 's page \<Rightarrow> bool" for h pg0 where
  loaded: "reachable h pg0 (renderToday h now pg0)"
| clicked: "reachable h pg0 pg \<Longrightarrow> reachable h pg0 (toggle_click h now pg)"
| ticked: "reachable h pg0 pg \<Longrightarrow> reachable h pg0 (refresh h now pg)"


section \<open>The forecast and the toggle, as the specification describes them\<close>






text \<open>
  The two states of the forecast panel that the click handler writes: hidden with the
  text that offers the forecast, or shown with the text that offers to hide it.
\<close>

definition panel_consistent :: "'s page \<Rightarrow> bool" where
  "panel_consistent pg =
     (sevenPanel_display pg = ''none'' \<and> toggle7_text pg = show_text
      \<or> sevenPanel_display pg = ''block'' \<and> toggle7_text pg = hide_text)"

subsection \<open>A host to run the model on\<close>

text \<open>
  A host with the clock change of central Europe in spring 2026 (UTC+1 until
  2026-03-29 01:00 UTC, UTC+2 after it), a random source that counts, and formats
  that print a placeholder.
\<close>

definition cet_host :: "nat host" where
  "cet_host =
     \<lparr> Number_toString = (\<lambda>x. ''#''),
       Number_toFixed = (\<lambda>x n. ''#''),
       Number_toString36 = (\<lambda>x. if x = 0 then ''0'' else ''0.k''),
       Math_random = (\<lambda>n. (if n = 0 then 0 else 1 / 2, Suc n)),
       Date_toLocaleString = (\<lambda>d. ''#''),
       Date_toLocaleDateString = (\<lambda>d opts. ''#''),
       LocalTZA = (\<lambda>t isUTC.
         if isUTC then (if t < 1774746000000 then 3600000 else 7200000)
         else (if t < 1774746000000 + 7200000 then 3600000 else 7200000)) \<rparr>"

definition blank_page :: "nat page" where
  "blank_page =
     \<lparr> now_text = [], todayMoon = [], todayLabel = [], todayDate = [],
       todayIllum = [], todayAge = [], grid7 = [],
       sevenPanel_display = ''none'', toggle7_text = show_text, rng = 0 \<rparr>"







section \<open>Properties of the phase model\<close>

lemma frac_num_bounds: "0 \<le> frac_num x \<and> frac_num x < 1"
  unfolding frac_num_def by linarith

lemma synodic_pos: "0 < synodic"
  by (simp add: synodic_def)

lemma phase_moonPhase: "phase (moonPhase d) = frac_num (cycles d)"
  by (simp add: moonPhase_def cycles_def Let_def)

lemma ageDays_moonPhase: "ageDays (moonPhase d) = phase (moonPhase d) * synodic"
  by (simp add: moonPhase_def Let_def)

lemma illum_moonPhase:
  "illum (moonPhase d) = 0.5 * (1 - cos (2 * pi * phase (moonPhase d)))"
  by (simp add: moonPhase_def Let_def TAU_def mult.commute)

text \<open>
  C1. \<open>phaseName\<close> is defined on every real phase fraction, agrees with the table of
  section 4.1 read top to bottom, always returns one of the eight names, and each name
  is returned on exactly one range: New Moon below 0.03 and above 0.97, Waxing Crescent
  on [0.03, 0.22), First Quarter on [0.22, 0.28), Waxing Gibbous on [0.28, 0.47),
  Full Moon on [0.47, 0.53), Waning Gibbous on [0.53, 0.72), Last Quarter on
  [0.72, 0.78) and Waning Crescent on [0.78, 0.97]. So every boundary value belongs to
  the bucket above it, except 0.97, which is still Waning Crescent.
\<close>

theorem phaseName_partition:
  "phaseName p = classifyPhase_table p
   \<and> phaseName p \<in> set phase_names
   \<and> distinct phase_names \<and> length phase_names = 8
   \<and> (phaseName p = ''New Moon'' \<longleftrightarrow> p < 0.03 \<or> 0.97 < p)
   \<and> (phaseName p = ''Waxing Crescent'' \<longleftrightarrow> 0.03 \<le> p \<and> p < 0.22)
   \<and> (phaseName p = ''First Quarter'' \<longleftrightarrow> 0.22 \<le> p \<and> p < 0.28)
   \<and> (phaseName p = ''Waxing Gibbous'' \<longleftrightarrow> 0.28 \<le> p \<and> p < 0.47)
   \<and> (phaseName p = ''Full Moon'' \<longleftrightarrow> 0.47 \<le> p \<and> p < 0.53)
   \<and> (phaseName p = ''Waning Gibbous'' \<longleftrightarrow> 0.53 \<le> p \<and> p < 0.72)
   \<and> (phaseName p = ''Last Quarter'' \<longleftrightarrow> 0.72 \<le> p \<and> p < 0.78)
   \<and> (phaseName p = ''Waning Crescent'' \<longleftrightarrow> 0.78 \<le> p \<and> p \<le> 0.97)"
proof -
  have tab: "phaseName p = classifyPhase_table p"
    by (simp add: phaseName_def classifyPhase_table_def conditions_table_def)
  have mem: "phaseName p \<in> set phase_names"
    by (simp add: phaseName_def phase_names_def)
  have dis: "distinct phase_names \<and> length phase_names = 8"
    by (simp add: phase_names_def)
  have b1: "phaseName p = ''New Moon'' \<longleftrightarrow> p < 0.03 \<or> 0.97 < p"
    by (simp add: phaseName_def)
  have b2: "phaseName p = ''Waxing Crescent'' \<longleftrightarrow> 0.03 \<le> p \<and> p < 0.22"
    by (auto simp: phaseName_def)
  have b3: "phaseName p = ''First Quarter'' \<longleftrightarrow> 0.22 \<le> p \<and> p < 0.28"
    by (auto simp: phaseName_def)
  have b4: "phaseName p = ''Waxing Gibbous'' \<longleftrightarrow> 0.28 \<le> p \<and> p < 0.47"
    by (auto simp: phaseName_def)
  have b5: "phaseName p = ''Full Moon'' \<longleftrightarrow> 0.47 \<le> p \<and> p < 0.53"
    by (auto simp: phaseName_def)
  have b6: "phaseName p = ''Waning Gibbous'' \<longleftrightarrow> 0.53 \<le> p \<and> p < 0.72"
    by (auto simp: phaseName_def)
  have b7: "phaseName p = ''Last Quarter'' \<longleftrightarrow> 0.72 \<le> p \<and> p < 0.78"
    by (auto simp: phaseName_def)
  have b8: "phaseName p = ''Waning Crescent'' \<longleftrightarrow> 0.78 \<le> p \<and> p \<le> 0.97"
    by (auto simp: phaseName_def)
  from tab mem dis b1 b2 b3 b4 b5 b6 b7 b8 show ?thesis by blast
qed


lemma cycles_epoch: "cycles (Date 947168640000) = 0"
  by (simp add: cycles_def toJulian_def)

lemma cycles_half: "cycles (Date 1744494539031) = 625 / 2"
  by (simp add: cycles_def toJulian_def synodic_def)

lemma cycles_unix: "cycles (Date 0) = - (10962600000000 / 29530588853) \<and> cycles (Date 0) < 0"
  by (simp add: cycles_def toJulian_def synodic_def)

lemma frac_num_int_shift: "frac_num (x + of_int n) = frac_num x"
  by (simp add: frac_num_def)

text \<open>
  C2. For every date, also one before the reference new moon, the phase fraction of
  \<open>moonPhase\<close> lies in [0,1): it is the cycle count minus the greatest whole number
  not above it. At the Unix epoch the cycle count is negative (about -371.23) and the
  fraction is the count plus 372, not the count plus 371 that truncation would give.
\<close>

theorem moonPhase_phase_range:
  "0 \<le> phase (moonPhase t) \<and> phase (moonPhase t) < 1
   \<and> phase (moonPhase t) = cycles t - of_int \<lfloor>cycles t\<rfloor>
   \<and> cycles (Date 0) < 0
   \<and> phase (moonPhase (Date 0)) = cycles (Date 0) + 372"
proof -
  have r: "0 \<le> phase (moonPhase t) \<and> phase (moonPhase t) < 1"
    using frac_num_bounds [of "cycles t"] by (simp add: phase_moonPhase)
  have e: "phase (moonPhase t) = cycles t - of_int \<lfloor>cycles t\<rfloor>"
    by (simp add: phase_moonPhase frac_num_def)
  have fl: "\<lfloor>- (10962600000000 / 29530588853 :: real)\<rfloor> = - 372"
    by (rule floor_unique) simp_all
  have u: "phase (moonPhase (Date 0)) = cycles (Date 0) + 372"
    using cycles_unix fl by (simp add: phase_moonPhase frac_num_def)
  from r e u cycles_unix show ?thesis by blast
qed

text \<open>
  C3. For every date the illuminated fraction is 0.5 (1 - cos (2 pi p)) for the phase
  fraction p of the same reading; it lies in [0,1], it is 0 when p = 0 and 1 when
  p = 0.5 (exactly, the arithmetic being exact here).
\<close>

theorem moonPhase_illum:
  "illum (moonPhase t) = 0.5 * (1 - cos (2 * pi * phase (moonPhase t)))
   \<and> 0 \<le> illum (moonPhase t) \<and> illum (moonPhase t) \<le> 1
   \<and> (phase (moonPhase t) = 0 \<longrightarrow> illum (moonPhase t) = 0)
   \<and> (phase (moonPhase t) = 0.5 \<longrightarrow> illum (moonPhase t) = 1)"
proof -
  let ?c = "cos (2 * pi * phase (moonPhase t))"
  have c: "- 1 \<le> ?c \<and> ?c \<le> 1" by simp
  have e: "illum (moonPhase t) = 0.5 * (1 - ?c)" by (rule illum_moonPhase)
  have e2: "illum (moonPhase t) * 2 = 1 - ?c" using e by simp
  have lo: "0 \<le> illum (moonPhase t)" using c e2 by linarith
  have hi: "illum (moonPhase t) \<le> 1" using c e2 by linarith
  have z: "phase (moonPhase t) = 0 \<longrightarrow> illum (moonPhase t) = 0"
  proof
    assume "phase (moonPhase t) = 0"
    then have "?c = 1" by simp
    with e2 show "illum (moonPhase t) = 0" by simp
  qed
  have h: "phase (moonPhase t) = 0.5 \<longrightarrow> illum (moonPhase t) = 1"
  proof
    assume "phase (moonPhase t) = 0.5"
    then have "2 * pi * phase (moonPhase t) = pi" by simp
    then have "?c = - 1" by (simp only: cos_pi)
    with e2 show "illum (moonPhase t) = 1" by simp
  qed
  from e lo hi z h show ?thesis by blast
qed

theorem moonPhase_illum_witness:
  "phase (moonPhase (Date 947168640000)) = 0
   \<and> illum (moonPhase (Date 947168640000)) = 0
   \<and> phase (moonPhase (Date 1744494539031)) = 0.5
   \<and> illum (moonPhase (Date 1744494539031)) = 1"
proof -
  have p0: "phase (moonPhase (Date 947168640000)) = 0"
    by (simp add: phase_moonPhase cycles_epoch frac_num_def)
  have fl: "\<lfloor>625 / 2 :: real\<rfloor> = 312"
    by (rule floor_unique) simp_all
  have p1: "phase (moonPhase (Date 1744494539031)) = 0.5"
    using fl by (simp add: phase_moonPhase cycles_half frac_num_def)
  from p0 p1 moonPhase_illum [of "Date 947168640000"]
    moonPhase_illum [of "Date 1744494539031"]
  show ?thesis by blast
qed

text \<open>
  C9. For every date the age in days is the phase fraction times 29.530588853, lies
  in [0, 29.530588853), and is the time in days from the last instant at or before the
  date whose cycle count is whole (a new moon of the model) to the date.
\<close>

theorem moonPhase_ageDays:
  "ageDays (moonPhase t) = phase (moonPhase t) * 29.530588853
   \<and> 0 \<le> ageDays (moonPhase t) \<and> ageDays (moonPhase t) < synodic
   \<and> synodic = 29.530588853
   \<and> ageDays (moonPhase t)
       = toJulian t - (2451550.1 + of_int \<lfloor>cycles t\<rfloor> * synodic)"
proof -
  have r: "0 \<le> phase (moonPhase t) \<and> phase (moonPhase t) < 1"
    using frac_num_bounds [of "cycles t"] by (simp add: phase_moonPhase)
  have a: "ageDays (moonPhase t) = phase (moonPhase t) * synodic"
    by (rule ageDays_moonPhase)
  have lo: "0 \<le> ageDays (moonPhase t)"
    using r a synodic_pos by simp
  have hi: "ageDays (moonPhase t) < synodic"
    using r a synodic_pos by simp
  have k: "cycles t * synodic = toJulian t - 2451550.1"
    using synodic_pos by (simp add: cycles_def)
  have "ageDays (moonPhase t) = cycles t * synodic - of_int \<lfloor>cycles t\<rfloor> * synodic"
    by (simp add: a phase_moonPhase frac_num_def algebra_simps)
  then have el: "ageDays (moonPhase t)
       = toJulian t - (2451550.1 + of_int \<lfloor>cycles t\<rfloor> * synodic)"
    using k by simp
  have s: "synodic = 29.530588853" by (simp add: synodic_def)
  from a lo hi s el show ?thesis by simp
qed

text \<open>
  C5. At the date whose Julian Day number is 2451550.1, the reference new moon of the
  model (time value 947168640000 ms, which is 2000-01-06 14:24 UTC), the phase
  fraction is 0 and its name is New Moon. At 2000-01-06 18:14 UTC (time value
  947182440000 ms), the new moon that the comment in the script names, the phase
  fraction is below 0.006 and its name is New Moon too.
\<close>

theorem reference_new_moon:
  "toJulian (Date 947168640000) = 2451550.1
   \<and> phase (moonPhase (Date 947168640000)) = 0
   \<and> phaseName (phase (moonPhase (Date 947168640000))) = ''New Moon''
   \<and> MakeDate (MakeDay 2000 0 6) (MakeTime 14 24 0 0) = 947168640000
   \<and> MakeDate (MakeDay 2000 0 6) (MakeTime 18 14 0 0) = 947182440000
   \<and> 0 \<le> phase (moonPhase (Date 947182440000))
   \<and> phase (moonPhase (Date 947182440000)) < 0.006
   \<and> phaseName (phase (moonPhase (Date 947182440000))) = ''New Moon''"
proof -
  have j: "toJulian (Date 947168640000) = 2451550.1"
    by (simp add: toJulian_def)
  have p0: "phase (moonPhase (Date 947168640000)) = 0"
    by (simp add: phase_moonPhase cycles_epoch frac_num_def)
  have n0: "phaseName (phase (moonPhase (Date 947168640000))) = ''New Moon''"
    by (simp add: p0 phaseName_def)
  have k1: "cycles (Date 947182440000) = 23000000000 / 4252404794832"
    by (simp add: cycles_def toJulian_def synodic_def)
  have fl: "\<lfloor>23000000000 / 4252404794832 :: real\<rfloor> = 0"
    by (rule floor_unique) simp_all
  have p1: "phase (moonPhase (Date 947182440000)) = 23000000000 / 4252404794832"
    using fl by (simp add: phase_moonPhase k1 frac_num_def)
  have n1: "phaseName (phase (moonPhase (Date 947182440000))) = ''New Moon''"
    by (simp add: p1 phaseName_def)
  have c: "MakeDate (MakeDay 2000 0 6) (MakeTime 14 24 0 0) = 947168640000
      \<and> MakeDate (MakeDay 2000 0 6) (MakeTime 18 14 0 0) = 947182440000"
    by (simp add: MakeDate_def MakeDay_def MakeTime_def DayFromYear_def DaysBeforeMonth_def
        DaysInYear_def msPerDay_def Let_def)
  from j p0 n0 p1 n1 c show ?thesis by simp
qed


lemma frac_num_in: "of_int n \<le> x \<Longrightarrow> x < of_int n + 1 \<Longrightarrow> frac_num x = x - of_int n"
proof -
  assume "of_int n \<le> x" and "x < of_int n + 1"
  then have "\<lfloor>x\<rfloor> = n" by (rule floor_unique)
  then show ?thesis by (simp add: frac_num_def)
qed

lemma frac_num_near:
  assumes d: "\<bar>d\<bar> < e" and e: "e \<le> 1"
  shows "\<bar>frac_num (x + d) - frac_num x\<bar> < e \<or> 1 - e < \<bar>frac_num (x + d) - frac_num x\<bar>"
proof -
  define n where "n = \<lfloor>x\<rfloor>"
  define m where "m = \<lfloor>x + d\<rfloor>"
  have n: "of_int n \<le> x \<and> x < of_int n + 1" unfolding n_def by linarith
  have m: "of_int m \<le> x + d \<and> x + d < of_int m + 1" unfolding m_def by linarith
  have "real_of_int m < real_of_int n + 2" using n m d e by linarith
  then have "real_of_int m < real_of_int (n + 2)" by simp
  then have u: "m \<le> n + 1" by linarith
  have "real_of_int n < real_of_int m + 2" using n m d e by linarith
  then have "real_of_int n < real_of_int (m + 2)" by simp
  then have l: "n - 1 \<le> m" by linarith
  have df: "frac_num (x + d) - frac_num x = d - (of_int m - of_int n)"
    by (simp add: frac_num_def n_def m_def)
  from u l consider "m = n" | "m = n + 1" | "m = n - 1" by linarith
  then show ?thesis
  proof cases
    case 1
    with df d show ?thesis by simp
  next
    case 2
    with df have "frac_num (x + d) - frac_num x = d - 1" by simp
    with d show ?thesis by linarith
  next
    case 3
    with df have "frac_num (x + d) - frac_num x = d + 1" by simp
    with d show ?thesis by linarith
  qed
qed

lemma cycles_shift:
  "cycles (Date (t + d)) = cycles (Date t) + real_of_int d / (86400000 * synodic)"
  by (simp add: cycles_def toJulian_def add_divide_distrib diff_divide_distrib)

lemma rnd_err:
  assumes "rounds rnd" and "\<bar>x\<bar> \<le> M" and "1 \<le> M" and "M \<le> 10 ^ 17"
  shows "\<bar>rnd x - x\<bar> \<le> M * (12 / 100000000000000000)"
proof -
  have "\<bar>x\<bar> \<le> 10 ^ 18" using assms(2,4) by simp
  with assms(1) have "\<bar>rnd x - x\<bar> \<le> \<bar>x\<bar> / 2 ^ 53 + 1 / 10 ^ 30"
    by (simp add: rounds_def)
  also have "\<dots> \<le> M / 2 ^ 53 + 1 / 10 ^ 30"
    using assms(2) by (simp add: divide_right_mono)
  also have "\<dots> \<le> M * (12 / 100000000000000000)"
    using assms(3) by simp
  finally show ?thesis .
qed

lemma phase_rounded_eq:
  "phase_rounded rnd d = rnd (frac_num (cycles_rounded rnd d))"
  by (simp add: phase_rounded_def cycles_rounded_def frac_num_def Let_def)

lemma phase_rounded_exact: "phase_rounded (\<lambda>x. x) d = phase (moonPhase d)"
  by (simp add: phase_rounded_def toJulian_rounded_def moonPhase_def toJulian_def synodic_def
      frac_num_def Let_def)

lemma cycles_rounded_close:
  assumes r: "rounds rnd" and t: "\<bar>getTime t\<bar> \<le> 8640000000000000"
  shows "\<bar>cycles_rounded rnd t - cycles t\<bar> \<le> 22 / 10000000000"
proof -
  define x0 where "x0 = real_of_int (getTime t) / 86400000"
  define a where "a = rnd x0"
  define jd where "jd = rnd (a + 4881175 / 2)"
  define c where "c = rnd (24515501 / 10)"
  define e where "e = rnd (jd - c)"
  define s where "s = rnd (29530588853 / 1000000000)"
  define q where "q = e / s"
  define E where "E = x0 + 4881175 / 2 - 24515501 / 10"
  define K where "K = E / (29530588853 / 1000000000)"
  have "\<bar>real_of_int (getTime t)\<bar> \<le> 8640000000000000"
    using t by linarith
  then have x0: "\<bar>x0\<bar> \<le> 100000000" by (simp add: x0_def)
  have "\<bar>a - x0\<bar> \<le> 100000000 * (12 / 100000000000000000)"
    unfolding a_def using r x0 by (rule rnd_err) simp_all
  then have a: "\<bar>a - x0\<bar> \<le> 12 / 1000000000" by simp
  have "\<bar>a + 4881175 / 2\<bar> \<le> 103000000" using a x0 by linarith
  then have "\<bar>jd - (a + 4881175 / 2)\<bar> \<le> 103000000 * (12 / 100000000000000000)"
    unfolding jd_def using r by (intro rnd_err) simp_all
  then have "\<bar>jd - (a + 4881175 / 2)\<bar> \<le> 1236 / 100000000000" by simp
  then have jd: "\<bar>jd - (x0 + 4881175 / 2)\<bar> \<le> 244 / 10000000000" using a by linarith
  have "\<bar>24515501 / 10 :: real\<bar> \<le> 2500000" by simp
  then have "\<bar>c - 24515501 / 10\<bar> \<le> 2500000 * (12 / 100000000000000000)"
    unfolding c_def using r by (intro rnd_err) simp_all
  then have c: "\<bar>c - 24515501 / 10\<bar> \<le> 3 / 10000000000" by simp
  have w: "\<bar>(jd - c) - E\<bar> \<le> 247 / 10000000000"
    unfolding E_def using jd c by linarith
  have Eb: "\<bar>E\<bar> \<le> 100010963" unfolding E_def using x0 by linarith
  have "\<bar>jd - c\<bar> \<le> 100020000" using w Eb by linarith
  then have "\<bar>e - (jd - c)\<bar> \<le> 100020000 * (12 / 100000000000000000)"
    unfolding e_def using r by (intro rnd_err) simp_all
  then have "\<bar>e - (jd - c)\<bar> \<le> 121 / 10000000000" by simp
  then have e: "\<bar>e - E\<bar> \<le> 368 / 10000000000" using w by linarith
  have "\<bar>29530588853 / 1000000000 :: real\<bar> \<le> 30" by simp
  then have "\<bar>s - 29530588853 / 1000000000\<bar> \<le> 30 * (12 / 100000000000000000)"
    unfolding s_def using r by (intro rnd_err) simp_all
  then have s: "\<bar>s - 29530588853 / 1000000000\<bar> \<le> 36 / 10000000000000000" by simp
  then have sl: "295 / 10 \<le> s" by linarith
  then have s0: "0 < s" by linarith
  have KE: "K * (29530588853 / 1000000000) = E" by (simp add: K_def)
  have Kb: "\<bar>K\<bar> \<le> 3390000"
  proof -
    have "\<bar>K\<bar> * (29530588853 / 1000000000) = \<bar>E\<bar>"
      using KE by (simp add: abs_mult [symmetric])
    with Eb show ?thesis by linarith
  qed
  have qs: "q * s = e" using s0 by (simp add: q_def)
  have "(q - K) * s = (e - E) + K * (29530588853 / 1000000000 - s)"
    using qs KE by (simp add: algebra_simps)
  moreover have "\<bar>K * (29530588853 / 1000000000 - s)\<bar> \<le> 123 / 10000000000"
  proof -
    have "\<bar>K * (29530588853 / 1000000000 - s)\<bar> = \<bar>K\<bar> * \<bar>29530588853 / 1000000000 - s\<bar>"
      by (rule abs_mult)
    also have "\<dots> \<le> 3390000 * (36 / 10000000000000000)"
      using Kb s by (intro mult_mono) (simp_all add: abs_minus_commute)
    also have "\<dots> \<le> 123 / 10000000000" by simp
    finally show ?thesis .
  qed
  ultimately have "\<bar>(q - K) * s\<bar> \<le> 491 / 10000000000"
    using e by linarith
  moreover define g where "g = \<bar>q - K\<bar>"
  ultimately have gs: "g * s \<le> 491 / 10000000000"
    using s0 by (simp add: abs_mult)
  have "0 \<le> g" by (simp add: g_def)
  then have "g * (295 / 10) \<le> g * s"
    using sl by (intro mult_left_mono)
  with gs have "g \<le> 17 / 10000000000" by linarith
  then have qK: "\<bar>q - K\<bar> \<le> 17 / 10000000000" by (simp add: g_def)
  have "\<bar>q\<bar> \<le> 3400000" using qK Kb by linarith
  then have "\<bar>rnd q - q\<bar> \<le> 3400000 * (12 / 100000000000000000)"
    using r by (intro rnd_err) simp_all
  then have "\<bar>rnd q - q\<bar> \<le> 408 / 1000000000000" by simp
  with qK have "\<bar>rnd q - K\<bar> \<le> 22 / 10000000000" by linarith
  moreover have "rnd q = cycles_rounded rnd t"
    by (simp add: cycles_rounded_def toJulian_rounded_def q_def e_def s_def c_def jd_def a_def
        x0_def)
  moreover have "K = cycles t"
    by (simp add: K_def E_def x0_def cycles_def toJulian_def synodic_def)
  ultimately show ?thesis by simp
qed

lemma trunc_close: "\<bar>real_of_int (ToIntegerOrInfinity x) - x\<bar> < 1"
  unfolding ToIntegerOrInfinity_def by (simp split: if_splits) linarith

lemma plusDays_offset:
  assumes r: "rounds rnd" and t: "\<bar>getTime t\<bar> \<le> 8640000000000000"
  shows "\<exists>d. plusDays rnd t 29.530588853 = Date (getTime t + d)
    \<and> \<bar>real_of_int d - 25514428768992 / 10000\<bar> < 3"
proof -
  define T where "T = real_of_int (getTime t)"
  define s where "s = rnd (29530588853 / 1000000000)"
  define m where "m = rnd (s * 86400000)"
  define z where "z = rnd (T + m)"
  define d where "d = ToIntegerOrInfinity z - getTime t"
  have Tb: "\<bar>T\<bar> \<le> 8640000000000000" unfolding T_def using t by linarith
  have "\<bar>29530588853 / 1000000000 :: real\<bar> \<le> 30" by simp
  then have "\<bar>s - 29530588853 / 1000000000\<bar> \<le> 30 * (12 / 100000000000000000)"
    unfolding s_def using r by (intro rnd_err) simp_all
  then have s: "\<bar>s - 29530588853 / 1000000000\<bar> \<le> 36 / 10000000000000000" by simp
  then have sm: "\<bar>s * 86400000 - 25514428768992 / 10000\<bar> \<le> 4 / 10000000" by linarith
  then have "\<bar>s * 86400000\<bar> \<le> 2600000000" by linarith
  then have "\<bar>m - s * 86400000\<bar> \<le> 2600000000 * (12 / 100000000000000000)"
    unfolding m_def using r by (intro rnd_err) simp_all
  then have "\<bar>m - s * 86400000\<bar> \<le> 4 / 10000000" by simp
  with sm have m: "\<bar>m - 25514428768992 / 10000\<bar> \<le> 8 / 10000000" by linarith
  have "\<bar>T + m\<bar> \<le> 8640003000000000" using Tb m by linarith
  then have "\<bar>z - (T + m)\<bar> \<le> 8640003000000000 * (12 / 100000000000000000)"
    unfolding z_def using r by (intro rnd_err) simp_all
  then have z: "\<bar>z - (T + m)\<bar> \<le> 104 / 100" by simp
  have "real_of_int d = real_of_int (ToIntegerOrInfinity z) - T"
    by (simp add: d_def T_def)
  with trunc_close [of z] z m have b: "\<bar>real_of_int d - 25514428768992 / 10000\<bar> < 3"
    by linarith
  have "plusDays rnd t 29.530588853 = Date (getTime t + d)"
    by (simp add: plusDays_def d_def z_def m_def s_def T_def)
  with b show ?thesis by blast
qed

text \<open>
  C4 as stated fails where the cycle wraps. At the reference new moon the phase
  fraction is 0; 29.530588853 days later, as a date of whole milliseconds, it is just
  below 1, so the two fractions differ by more than one half. (The numbers are those of
  exact arithmetic; at these two dates the script's rounded arithmetic gives 0 and a
  value just below 1 as well.)
\<close>

theorem periodicity_counterexample:
  "phase (moonPhase (Date 947168640000)) = 0
   \<and> plusDays (\<lambda>x. x) (Date 947168640000) 29.530588853 = Date 949720082876
   \<and> phase (moonPhase (Date 949720082876)) = 25514428760000 / 25514428768992
   \<and> \<not> (\<forall>t. \<bar>phase (moonPhase (plusDays (\<lambda>x. x) t 29.530588853))
            - phase (moonPhase t)\<bar> < 1 / 2)"
proof -
  have p0: "phase (moonPhase (Date 947168640000)) = 0"
    by (simp add: phase_moonPhase cycles_epoch frac_num_def)
  have d1: "plusDays (\<lambda>x. x) (Date 947168640000) 29.530588853 = Date 949720082876"
  proof -
    have "\<lfloor>949720082876.8992 :: real\<rfloor> = 949720082876"
      by (rule floor_unique) simp_all
    then show ?thesis
      by (simp add: plusDays_def ToIntegerOrInfinity_def)
  qed
  have k1: "cycles (Date 949720082876) = 25514428760000 / 25514428768992"
    by (simp add: cycles_def toJulian_def synodic_def)
  have p1: "phase (moonPhase (Date 949720082876)) = 25514428760000 / 25514428768992"
    unfolding phase_moonPhase k1 using frac_num_in [of 0 "25514428760000 / 25514428768992"]
    by simp
  have a: "\<not> (\<forall>t. \<bar>phase (moonPhase (plusDays (\<lambda>x. x) t 29.530588853))
            - phase (moonPhase t)\<bar> < 1 / 2)"
  proof
    assume "\<forall>t. \<bar>phase (moonPhase (plusDays (\<lambda>x. x) t 29.530588853))
            - phase (moonPhase t)\<bar> < 1 / 2"
    then have "\<bar>phase (moonPhase (plusDays (\<lambda>x. x) (Date 947168640000) 29.530588853))
        - phase (moonPhase (Date 947168640000))\<bar> < 1 / 2" by blast
    then show False unfolding d1 p0 p1 by simp
  qed
  from p0 d1 p1 a show ?thesis by blast
qed

text \<open>
  C4, amended. In rounded arithmetic, for every date such that it and the date
  29.530588853 days later are within the range of Date, the phase fractions at the two
  dates are within 1e-8 of each other on the cycle: they differ by less than 1e-8, or
  by more than 1 - 1e-8 when the fraction has wrapped between just below 1 and just
  above 0.
\<close>

theorem periodicity_on_cycle:
  assumes r: "rounds rnd"
    and t: "\<bar>getTime t\<bar> \<le> 8640000000000000"
    and t': "\<bar>getTime (plusDays rnd t 29.530588853)\<bar> \<le> 8640000000000000"
  shows "\<bar>phase_rounded rnd (plusDays rnd t 29.530588853) - phase_rounded rnd t\<bar>
      < 1 / 100000000
    \<or> 1 - 1 / 100000000
      < \<bar>phase_rounded rnd (plusDays rnd t 29.530588853) - phase_rounded rnd t\<bar>"
proof -
  obtain d where d: "plusDays rnd t 29.530588853 = Date (getTime t + d)"
    and b: "\<bar>real_of_int d - 25514428768992 / 10000\<bar> < 3"
    using plusDays_offset [OF r t] by blast
  define t2 where "t2 = Date (getTime t + d)"
  define k1 where "k1 = cycles_rounded rnd t"
  define k2 where "k2 = cycles_rounded rnd t2"
  define \<rho> where "\<rho> = real_of_int d / (86400000 * synodic) - 1"
  have t2: "\<bar>getTime t2\<bar> \<le> 8640000000000000" using t' d by (simp add: t2_def)
  have c1: "\<bar>k1 - cycles t\<bar> \<le> 22 / 10000000000"
    unfolding k1_def using r t by (rule cycles_rounded_close)
  have c2: "\<bar>k2 - cycles t2\<bar> \<le> 22 / 10000000000"
    unfolding k2_def using r t2 by (rule cycles_rounded_close)
  have "t = Date (getTime t)" by simp
  then have sh: "cycles t2 = cycles t + 1 + \<rho>"
    unfolding t2_def \<rho>_def using cycles_shift [of "getTime t" d] by simp
  have "\<rho> * (25514428768992 / 10000) = real_of_int d - 25514428768992 / 10000"
    unfolding \<rho>_def by (simp add: synodic_def field_simps)
  with b have rho: "\<bar>\<rho>\<bar> < 12 / 10000000000" by linarith
  define \<delta> where "\<delta> = k2 - k1 - 1"
  have dl: "\<bar>\<delta>\<bar> < 57 / 10000000000"
    unfolding \<delta>_def using c1 c2 sh rho by linarith
  have "k2 = (k1 + \<delta>) + of_int 1" by (simp add: \<delta>_def)
  then have "frac_num k2 = frac_num (k1 + \<delta>)" by (simp only: frac_num_int_shift)
  moreover have "\<bar>frac_num (k1 + \<delta>) - frac_num k1\<bar> < 57 / 10000000000
      \<or> 1 - 57 / 10000000000 < \<bar>frac_num (k1 + \<delta>) - frac_num k1\<bar>"
    using dl by (rule frac_num_near) simp
  ultimately have f: "\<bar>frac_num k2 - frac_num k1\<bar> < 57 / 10000000000
      \<or> 1 - 57 / 10000000000 < \<bar>frac_num k2 - frac_num k1\<bar>"
    by simp
  have "\<bar>frac_num k1\<bar> \<le> 1" using frac_num_bounds [of k1] by linarith
  then have "\<bar>rnd (frac_num k1) - frac_num k1\<bar> \<le> 1 * (12 / 100000000000000000)"
    using r by (intro rnd_err) simp_all
  then have p1: "\<bar>phase_rounded rnd t - frac_num k1\<bar> \<le> 12 / 100000000000000000"
    by (simp add: phase_rounded_eq k1_def)
  have "\<bar>frac_num k2\<bar> \<le> 1" using frac_num_bounds [of k2] by linarith
  then have "\<bar>rnd (frac_num k2) - frac_num k2\<bar> \<le> 1 * (12 / 100000000000000000)"
    using r by (intro rnd_err) simp_all
  then have p2: "\<bar>phase_rounded rnd t2 - frac_num k2\<bar> \<le> 12 / 100000000000000000"
    by (simp add: phase_rounded_eq k2_def)
  from f p1 p2 have "\<bar>phase_rounded rnd t2 - phase_rounded rnd t\<bar> < 1 / 100000000
    \<or> 1 - 1 / 100000000 < \<bar>phase_rounded rnd t2 - phase_rounded rnd t\<bar>"
    by linarith
  then show ?thesis unfolding d t2_def .
qed

theorem periodicity_on_cycle_witness:
  "rounds (\<lambda>x. x)
   \<and> \<bar>getTime (Date 947168640000)\<bar> \<le> 8640000000000000
   \<and> plusDays (\<lambda>x. x) (Date 947168640000) 29.530588853 = Date 949720082876
   \<and> phase_rounded (\<lambda>x. x) (Date 947168640000) = 0
   \<and> phase_rounded (\<lambda>x. x) (Date 949720082876) = 25514428760000 / 25514428768992
   \<and> (\<bar>phase_rounded (\<lambda>x. x) (plusDays (\<lambda>x. x) (Date 947168640000) 29.530588853)
         - phase_rounded (\<lambda>x. x) (Date 947168640000)\<bar> < 1 / 100000000
       \<or> 1 - 1 / 100000000
         < \<bar>phase_rounded (\<lambda>x. x) (plusDays (\<lambda>x. x) (Date 947168640000) 29.530588853)
             - phase_rounded (\<lambda>x. x) (Date 947168640000)\<bar>)"
proof -
  have r: "rounds (\<lambda>x. x)" by (simp add: rounds_def)
  have t: "\<bar>getTime (Date 947168640000)\<bar> \<le> 8640000000000000" by simp
  have d1: "plusDays (\<lambda>x. x) (Date 947168640000) 29.530588853 = Date 949720082876"
  proof -
    have "\<lfloor>949720082876.8992 :: real\<rfloor> = 949720082876"
      by (rule floor_unique) simp_all
    then show ?thesis
      by (simp add: plusDays_def ToIntegerOrInfinity_def)
  qed
  have t': "\<bar>getTime (plusDays (\<lambda>x. x) (Date 947168640000) 29.530588853)\<bar>
      \<le> 8640000000000000"
    unfolding d1 by simp
  have p0: "phase_rounded (\<lambda>x. x) (Date 947168640000) = 0"
    by (simp add: phase_rounded_exact phase_moonPhase cycles_epoch frac_num_def)
  have k1: "cycles (Date 949720082876) = 25514428760000 / 25514428768992"
    by (simp add: cycles_def toJulian_def synodic_def)
  have p1: "phase_rounded (\<lambda>x. x) (Date 949720082876) = 25514428760000 / 25514428768992"
    unfolding phase_rounded_exact phase_moonPhase k1
    using frac_num_in [of 0 "25514428760000 / 25514428768992"] by simp
  from periodicity_on_cycle [OF r t t'] r t d1 p0 p1 show ?thesis by blast
qed


section \<open>Properties of the presentation layer\<close>

text \<open>
  C8. The markup that \<open>moonSVG\<close> returns is its nine pieces, which are computed from
  the phase fraction and the size alone, with the identifier of the call between
  them. So two calls with the same phase fraction and size, on any two states of the
  random source, return the same markup except for the identifier, which each call
  makes from one new draw of \<open>Math.random\<close>.
\<close>

theorem moonSVG_same_up_to_id:
  "fst (moonSVG h p size_arg st1) = fill_in (icon_id h st1) (moonSVG_pieces h p size_arg)
   \<and> fst (moonSVG h p size_arg st2) = fill_in (icon_id h st2) (moonSVG_pieces h p size_arg)
   \<and> length (moonSVG_pieces h p size_arg) = 9
   \<and> snd (moonSVG h p size_arg st1) = snd (Math_random h st1)"
proof -
  have a: "fst (moonSVG h p size_arg st) = fill_in (icon_id h st) (moonSVG_pieces h p size_arg)"
    for st
    by (simp add: moonSVG_def moonSVG_pieces_def icon_id_def Let_def split_def)
  have b: "length (moonSVG_pieces h p size_arg) = 9"
    by (simp add: moonSVG_pieces_def Let_def)
  have c: "snd (moonSVG h p size_arg st1) = snd (Math_random h st1)"
    by (simp add: moonSVG_def Let_def split_def)
  from a b c show ?thesis by simp
qed

subsection \<open>The toggle\<close>

lemma render7_card_panel:
  "sevenPanel_display (render7_card h d pg) = sevenPanel_display pg
   \<and> toggle7_text (render7_card h d pg) = toggle7_text pg"
  by (simp add: render7_card_def Let_def split_def)

lemma render7_loop_panel:
  "sevenPanel_display (render7_loop h base i pg) = sevenPanel_display pg
   \<and> toggle7_text (render7_loop h base i pg) = toggle7_text pg"
proof (induction h base i pg rule: render7_loop.induct)
  case (1 h base i pg)
  show ?case
  proof (cases "i \<le> 7")
    case True
    then show ?thesis
      using "1.IH" [OF True refl]
      by (subst (1 2) render7_loop.simps) (simp add: Let_def render7_card_panel)
  next
    case False
    then show ?thesis by (subst (1 2) render7_loop.simps) simp
  qed
qed

lemma render7_panel:
  "sevenPanel_display (render7 h now pg) = sevenPanel_display pg
   \<and> toggle7_text (render7 h now pg) = toggle7_text pg"
  by (simp add: render7_def Let_def render7_loop_panel)

lemma renderToday_panel:
  "sevenPanel_display (renderToday h now pg) = sevenPanel_display pg
   \<and> toggle7_text (renderToday h now pg) = toggle7_text pg"
  by (simp add: renderToday_def Let_def split_def)

lemma refresh_panel:
  "sevenPanel_display (refresh h now pg) = sevenPanel_display pg
   \<and> toggle7_text (refresh h now pg) = toggle7_text pg"
  by (simp add: refresh_def Let_def render7_panel renderToday_panel)

lemma toggle_click_display:
  "sevenPanel_display (toggle_click h now pg)
     = (if sevenPanel_display pg = ''none'' then ''block'' else ''none'')"
  by (simp add: toggle_click_def Let_def render7_panel)

lemma toggle_click_text:
  "toggle7_text (toggle_click h now pg)
     = (if sevenPanel_display pg = ''none'' then hide_text else show_text)"
  by (simp add: toggle_click_def Let_def render7_panel)

lemma toggle_click_consistent: "panel_consistent (toggle_click h now pg)"
  by (simp add: panel_consistent_def toggle_click_display toggle_click_text)

lemma reachable_consistent:
  "reachable h pg0 pg \<Longrightarrow> panel_consistent pg0 \<Longrightarrow> panel_consistent pg"
proof (induction rule: reachable.induct)
  case (loaded now)
  then show ?case by (simp add: panel_consistent_def renderToday_panel)
next
  case (clicked pg now)
  show ?case by (rule toggle_click_consistent)
next
  case (ticked pg now)
  then show ?case by (simp add: panel_consistent_def refresh_panel)
qed

lemma two_clicks:
  assumes "panel_consistent pg"
  shows "sevenPanel_display (toggle_click h n2 (toggle_click h n1 pg)) = sevenPanel_display pg
    \<and> toggle7_text (toggle_click h n2 (toggle_click h n1 pg)) = toggle7_text pg"
  using assms
  by (auto simp: panel_consistent_def toggle_click_display toggle_click_text)

text \<open>
  C7. If the markup gives the forecast panel in one of the two states that the click
  handler writes (hidden with the text that offers the forecast, as the specification
  has it at the start, or shown with the text that offers to hide it), then in every
  state the page can reach by clicks and timer ticks, two clicks of the toggle in
  succession leave the inline display of the panel and the text of the toggle as
  they were.
\<close>

theorem toggle_twice:
  assumes "reachable h pg0 pg" and "panel_consistent pg0"
  shows "sevenPanel_display (toggle_click h n2 (toggle_click h n1 pg)) = sevenPanel_display pg
    \<and> toggle7_text (toggle_click h n2 (toggle_click h n1 pg)) = toggle7_text pg"
  using assms reachable_consistent two_clicks by blast

theorem toggle_twice_witness:
  "reachable cet_host blank_page
     (toggle_click cet_host (Date 1774621800000)
       (renderToday cet_host (Date 1774621800000) blank_page))
   \<and> panel_consistent blank_page
   \<and> sevenPanel_display
       (toggle_click cet_host (Date 1774621800000)
         (toggle_click cet_host (Date 1774621800000)
           (toggle_click cet_host (Date 1774621800000)
             (renderToday cet_host (Date 1774621800000) blank_page)))) = ''block''
   \<and> toggle7_text
       (toggle_click cet_host (Date 1774621800000)
         (toggle_click cet_host (Date 1774621800000)
           (toggle_click cet_host (Date 1774621800000)
             (renderToday cet_host (Date 1774621800000) blank_page)))) = hide_text"
proof -
  let ?now = "Date 1774621800000"
  let ?pg = "toggle_click cet_host ?now (renderToday cet_host ?now blank_page)"
  have r: "reachable cet_host blank_page ?pg"
    by (intro reachable.intros)
  have c: "panel_consistent blank_page"
    by (simp add: panel_consistent_def blank_page_def)
  have d: "sevenPanel_display ?pg = ''block'' \<and> toggle7_text ?pg = hide_text"
    by (simp add: toggle_click_display toggle_click_text renderToday_panel blank_page_def)
  from toggle_twice [OF r c, of ?now ?now] d r c show ?thesis by simp
qed


section \<open>Properties of the date model\<close>

text \<open>
  The year of a time value is the one ECMAScript defines: the largest year that does
  not begin after the day of the time value. Years have 365 or 366 days as
  \<open>DaysInYear\<close> says, so the day within the year, the month and the day of the month
  are in range.
\<close>

lemma div_bounds:
  assumes "0 < k" and "q = x div k"
  shows "k * q \<le> x \<and> x < k * q + (k::int)"
proof -
  have e: "x = k * q + x mod k" using assms by simp
  have l: "0 \<le> x mod k" using assms by simp
  have u: "x mod k < k" using assms by simp
  from e l u show ?thesis by linarith
qed

lemma DayFromYear_bounds:
  "146097 * (z - 1970) - 506 \<le> 400 * DayFromYear z
   \<and> 400 * DayFromYear z \<le> 146097 * (z - 1970) + 589"
proof -
  define a where "a = (z - 1969) div 4"
  define b where "b = (z - 1901) div 100"
  define c where "c = (z - 1601) div 400"
  have a: "4 * a \<le> z - 1969 \<and> z - 1969 < 4 * a + 4"
    by (rule div_bounds [OF _ a_def]) simp
  have b: "100 * b \<le> z - 1901 \<and> z - 1901 < 100 * b + 100"
    by (rule div_bounds [OF _ b_def]) simp
  have c: "400 * c \<le> z - 1601 \<and> z - 1601 < 400 * c + 400"
    by (rule div_bounds [OF _ c_def]) simp
  have "DayFromYear z = 365 * (z - 1970) + a - b + c"
    by (simp add: DayFromYear_def a_def b_def c_def)
  with a b c show ?thesis by (simp add: algebra_simps)
qed

lemma YearFromTime_spec:
  "DayFromYear (YearFromTime t) \<le> Day t \<and> Day t < DayFromYear (YearFromTime t + 1)"
proof -
  define d where "d = Day t"
  define y where "y = 1970 + (400 * d) div 146097"
  define q where "q = (400 * d) div 146097"
  have "146097 * q \<le> 400 * d \<and> 400 * d < 146097 * q + 146097"
    by (rule div_bounds [OF _ q_def]) simp
  moreover have "y - 1970 = q" by (simp add: y_def q_def)
  ultimately
  have e: "146097 * (y - 1970) \<le> 400 * d \<and> 400 * d < 146097 * (y - 1970) + 146097"
    by simp
  have lo: "DayFromYear (y - 1) \<le> d"
    using DayFromYear_bounds [of "y - 1"] e by (simp add: algebra_simps)
  have hi: "d < DayFromYear (y + 2)"
    using DayFromYear_bounds [of "y + 2"] e by (simp add: algebra_simps)
  have Y: "YearFromTime t = (if DayFromYear (y + 1) \<le> d then y + 1
         else if DayFromYear y \<le> d then y else y - 1)"
    by (simp add: YearFromTime_def Let_def d_def y_def)
  show ?thesis
    unfolding Y d_def [symmetric] using lo hi by (auto simp: add.commute)
qed

lemma DayFromYear_strict_mono:
  assumes "x < y"
  shows "DayFromYear x < DayFromYear y"
proof -
  have "146097 * (x - 1970) + 146097 \<le> 146097 * (y - 1970)"
    using assms by (simp add: algebra_simps)
  then show ?thesis
    using DayFromYear_bounds [of x] DayFromYear_bounds [of y] by (simp add: algebra_simps)
qed

lemma YearFromTime_largest:
  assumes "DayFromYear y \<le> Day t"
  shows "y \<le> YearFromTime t"
proof (rule ccontr)
  assume "\<not> y \<le> YearFromTime t"
  then have "YearFromTime t + 1 \<le> y" by simp
  then have "DayFromYear (YearFromTime t + 1) \<le> DayFromYear y"
    using DayFromYear_strict_mono [of "YearFromTime t + 1" y] by (cases "YearFromTime t + 1 = y") auto
  with assms YearFromTime_spec [of t] show False by simp
qed

lemma div_succ:
  assumes "0 < (k::int)"
  shows "(x + 1) div k = x div k + (if (x + 1) mod k = 0 then 1 else 0)"
proof -
  define q where "q = x div k"
  define r where "r = x mod k"
  have x: "x = k * q + r" by (simp add: q_def r_def)
  have r: "0 \<le> r" "r < k" using assms by (simp_all add: r_def)
  show ?thesis
  proof (cases "r + 1 < k")
    case True
    have e: "x + 1 = k * q + (r + 1)" using x by simp
    have "(x + 1) div k = q" using e r True by (intro int_div_pos_eq [of _ _ _ "r + 1"]) simp_all
    moreover have "(x + 1) mod k = r + 1"
      using e r True by (intro int_mod_pos_eq [of _ _ q]) simp_all
    ultimately show ?thesis using r by (simp add: q_def)
  next
    case False
    with r have rk: "r + 1 = k" by simp
    have e: "x + 1 = k * (q + 1) + 0" using x rk by (simp add: algebra_simps)
    have "(x + 1) div k = q + 1" using e assms by (intro int_div_pos_eq [of _ _ _ 0]) simp_all
    moreover have "(x + 1) mod k = 0"
      using e assms by (intro int_mod_pos_eq [of _ _ "q + 1"]) simp_all
    ultimately show ?thesis by (simp add: q_def)
  qed
qed

lemma mod_shift:
  "((y::int) - 1968) mod 4 = y mod 4"
  "((y::int) - 1900) mod 100 = y mod 100"
  "((y::int) - 1600) mod 400 = y mod 400"
proof -
  have "y - 1968 = y + 4 * (- 492)" by simp
  then show "(y - 1968) mod 4 = y mod 4" by (simp only: mod_mult_self2)
  have "y - 1900 = y + 100 * (- 19)" by simp
  then show "(y - 1900) mod 100 = y mod 100" by (simp only: mod_mult_self2)
  have "y - 1600 = y + 400 * (- 4)" by simp
  then show "(y - 1600) mod 400 = y mod 400" by (simp only: mod_mult_self2)
qed

lemma leap_divides:
  "(y::int) mod 400 = 0 \<Longrightarrow> y mod 100 = 0"
  "(y::int) mod 100 = 0 \<Longrightarrow> y mod 4 = 0"
proof -
  show "y mod 100 = 0" if "y mod 400 = 0"
  proof -
    from that have "400 dvd y" by (simp only: mod_eq_0_iff_dvd)
    then obtain k where "y = 400 * k" ..
    then have "y = 100 * (4 * k)" by simp
    then show ?thesis by (simp only: mod_mult_self1_is_0)
  qed
  show "y mod 4 = 0" if "y mod 100 = 0"
  proof -
    from that have "100 dvd y" by (simp only: mod_eq_0_iff_dvd)
    then obtain k where "y = 100 * k" ..
    then have "y = 4 * (25 * k)" by simp
    then show ?thesis by (simp only: mod_mult_self1_is_0)
  qed
qed

lemma DayFromYear_step: "DayFromYear (y + 1) = DayFromYear y + DaysInYear y"
proof -
  have a: "(y + 1 - 1969) div 4 = (y - 1969) div 4 + (if y mod 4 = 0 then 1 else 0)"
    using div_succ [of 4 "y - 1969"] mod_shift(1) [of y] by (simp add: algebra_simps)
  have b: "(y + 1 - 1901) div 100 = (y - 1901) div 100 + (if y mod 100 = 0 then 1 else 0)"
    using div_succ [of 100 "y - 1901"] mod_shift(2) [of y] by (simp add: algebra_simps)
  have c: "(y + 1 - 1601) div 400 = (y - 1601) div 400 + (if y mod 400 = 0 then 1 else 0)"
    using div_succ [of 400 "y - 1601"] mod_shift(3) [of y] by (simp add: algebra_simps)
  show ?thesis
    unfolding DayFromYear_def DaysInYear_def a b c
    using leap_divides [of y] by auto
qed

lemma DayWithinYear_range:
  "0 \<le> DayWithinYear t \<and> DayWithinYear t < DaysInYear (YearFromTime t)"
  using YearFromTime_spec [of t] DayFromYear_step [of "YearFromTime t"]
  by (simp add: DayWithinYear_def)

lemma DaysInYear_cases: "DaysInYear y = 365 \<or> DaysInYear y = 366"
  by (simp add: DaysInYear_def)


lemma DateFromTime_range: "1 \<le> DateFromTime t \<and> DateFromTime t \<le> 31"
proof -
  define d where "d = DayWithinYear t"
  define l where "l = InLeapYear t"
  have d: "0 \<le> d" "d < 365 + l"
    using DayWithinYear_range [of t] DaysInYear_cases [of "YearFromTime t"]
    by (auto simp: d_def l_def InLeapYear_def)
  have l: "l = 0 \<or> l = 1" by (simp add: l_def InLeapYear_def)
  show ?thesis
    unfolding DateFromTime_def MonthFromTime_def Let_def d_def [symmetric] l_def [symmetric]
    using d l by auto
qed









subsection \<open>The forecast\<close>






























end
